theory Spec2Isabelle
  imports Main "HOL-Library.Sublist"
begin

section \<open>Strings, dictionaries and the emoji table\<close>

text \<open>
  A Python 3 string is a sequence of code points, so a string is modelled as a list of
  natural numbers (one per code point, lone surrogates included); \<open>len\<close> is
  \<open>length\<close>.  \<open>ustr\<close> turns an ASCII literal into such a string.
\<close>

type_synonym codepoint = nat
type_synonym ustring = "codepoint list"

definition ustr :: "string \<Rightarrow> ustring" where
  "ustr s = map of_char s"

datatype py_error = IndexError

text \<open>\<open>str.join\<close>.\<close>

fun py_join :: "ustring \<Rightarrow> ustring list \<Rightarrow> ustring" where
  "py_join j [] = []"
| "py_join j [x] = x"
| "py_join j (x # y # ys) = x @ j @ py_join j (y # ys)"

text \<open>
  \<open>str.replace(old, new)\<close>: the occurrences of \<open>old\<close> are replaced from left to
  right without overlap; an empty \<open>old\<close> matches before every character and at the end.
\<close>

fun replace_scan :: "ustring \<Rightarrow> ustring \<Rightarrow> ustring \<Rightarrow> ustring" where
  "replace_scan old new [] = []"
| "replace_scan old new (c # cs) =
     (if prefix old (c # cs)
      then new @ replace_scan old new (drop (length old - 1) cs)
      else c # replace_scan old new cs)"

definition py_replace :: "ustring \<Rightarrow> ustring \<Rightarrow> ustring \<Rightarrow> ustring" where
  "py_replace old new s =
     (if old = [] then new @ concat (map (\<lambda>c. c # new) s)
      else replace_scan old new s)"

section \<open>to\_code\_point\<close>

text \<open>\<open>format(n, 'x')\<close>: lowercase hexadecimal, with a minus sign for a negative number.\<close>

definition hex_digit :: "nat \<Rightarrow> codepoint" where
  "hex_digit d = (if d < 10 then 48 + d else 87 + d)"

fun hex_nat :: "nat \<Rightarrow> ustring" where
  "hex_nat n = (if n < 16 then [hex_digit n] else hex_nat (n div 16) @ [hex_digit (n mod 16)])"

declare hex_nat.simps [simp del]

definition format_x :: "int \<Rightarrow> ustring" where
  "format_x n = (if n < 0 then 45 # hex_nat (nat (- n)) else hex_nat (nat n))"

text \<open>
  The first statement of \<open>to_code_point\<close>.  \<open>string[0]\<close> raises \<open>IndexError\<close> on
  the empty string; \<open>or\<close> evaluates it only when U+200D occurs in the string.
\<close>

definition strip_selector :: "ustring \<Rightarrow> py_error + ustring" where
  "strip_selector s =
     (if 0x200D \<notin> set s then Inr (py_replace [0xFE0F] [] s)
      else (case s of
              [] \<Rightarrow> Inl IndexError
            | c # _ \<Rightarrow> if c = 0x1F441 then Inr (py_replace [0xFE0F] [] s) else Inr s))"

text \<open>
  The \<open>while\<close> loop: \<open>p\<close> is the pending lead surrogate (0 when there is none),
  \<open>r\<close> the list of groups so far, the last argument is \<open>string[i:]\<close>.  The result
  is the state \<open>(p, r)\<close> when the loop ends.
\<close>

fun code_point_loop :: "int \<Rightarrow> ustring list \<Rightarrow> ustring \<Rightarrow> int \<times> ustring list" where
  "code_point_loop p r [] = (p, r)"
| "code_point_loop p r (ch # rest) =
     (let c = int ch in
      if p \<noteq> 0 then
        code_point_loop 0
          (r @ [format_x (0x10000 + push_bit 10 (p - 0xD800) + (c - 0xDC00))]) rest
      else if 0xD800 \<le> c \<and> c \<le> 0xDBFF then code_point_loop c r rest
      else code_point_loop 0 (r @ [format_x c]) rest)"

definition to_code_point :: "ustring \<Rightarrow> ustring \<Rightarrow> py_error + ustring" where
  "to_code_point s joiner =
     (case strip_selector s of
        Inl e \<Rightarrow> Inl e
      | Inr s' \<Rightarrow> Inr (py_join joiner (snd (code_point_loop 0 [] s'))))"

section \<open>The emoji table\<close>

text \<open>
  A \<open>dict\<close> is the list of its items in insertion order (the keys of a Python dict are
  distinct).  The module \<open>unicode_codes\<close> holds four of them; it is data supplied from
  outside, so every function below takes it as the parameter \<open>T\<close>.
\<close>

type_synonym dict = "(ustring \<times> ustring) list"

definition dict_get :: "dict \<Rightarrow> ustring \<Rightarrow> ustring \<Rightarrow> ustring" where
  "dict_get d k dflt = (case map_of d k of Some v \<Rightarrow> v | None \<Rightarrow> dflt)"

definition dict_values :: "dict \<Rightarrow> ustring list" where
  "dict_values d = map snd d"

definition dict_contains :: "dict \<Rightarrow> ustring \<Rightarrow> bool" where
  "dict_contains d k = (k \<in> set (map fst d))"

record unicode_codes =
  EMOJI_UNICODE :: dict
  EMOJI_ALIAS_UNICODE :: dict
  UNICODE_EMOJI :: dict
  UNICODE_EMOJI_ALIAS :: dict

definition DEFAULT_DELIMITER :: ustring where
  "DEFAULT_DELIMITER = [58]"

section \<open>emojize\<close>

text \<open>
  The character class of the shortcode pattern, as the source file has it:
  \<open>a-z\<close>, \<open>A-Z\<close>, \<open>0-9\<close>, \<open>+ - _ & .\<close>, ten code points beyond ASCII, and
  \<open>( ) ! # *\<close>.
\<close>

definition token_char :: "codepoint \<Rightarrow> bool" where
  "token_char c =
     ((97 \<le> c \<and> c \<le> 122) \<or> (65 \<le> c \<and> c \<le> 90) \<or> (48 \<le> c \<and> c \<le> 57)
      \<or> c \<in> set [43, 45, 95, 38, 46,
                   0x221A, 0xA5, 0x201A, 0xC4, 0xF4, 0xD6, 0xA9, 0xA3, 0x2260, 0xDF,
                   40, 41, 33, 35, 42])"

text \<open>
  The two delimiters are spliced into the pattern as they are, without \<open>re.escape\<close>.
  A delimiter without any of the special characters of \<open>re\<close>
  (\<open>. ^ $ * + ? { } [ ] \ | ( )\<close>) stands for itself there, and the matcher below is
  the pattern \<open>(d0[class]+d1)\<close> for such delimiters.  With a special character in a
  delimiter, \<open>re.compile\<close> builds some other pattern or raises \<open>re.error\<close>; those
  calls are outside this model, and \<open>emojize\<close> is \<open>None\<close> for them.
\<close>

definition regex_special :: "codepoint \<Rightarrow> bool" where
  "regex_special c = (c \<in> set [46, 94, 36, 42, 43, 63, 123, 125, 91, 93, 92, 124, 40, 41])"

definition literal_delimiter :: "ustring \<Rightarrow> bool" where
  "literal_delimiter d = (filter regex_special d = [])"

text \<open>
  The greedy repetition has taken \<open>k\<close> characters of \<open>rest\<close>; it gives them back one
  at a time until the closing delimiter follows, and keeps at least one.
\<close>

fun close_at :: "ustring \<Rightarrow> ustring \<Rightarrow> nat \<Rightarrow> nat option" where
  "close_at d1 rest 0 = None"
| "close_at d1 rest (Suc k) =
     (if prefix d1 (drop (Suc k) rest) then Some (Suc k) else close_at d1 rest k)"

text \<open>The length of the match of the pattern at the start of \<open>s\<close>, if there is one.\<close>

definition match_shortcode :: "ustring \<Rightarrow> ustring \<Rightarrow> ustring \<Rightarrow> nat option" where
  "match_shortcode d0 d1 s =
     (if prefix d0 s then
        (let rest = drop (length d0) s in
         case close_at d1 rest (length (takeWhile token_char rest)) of
           None \<Rightarrow> None
         | Some k \<Rightarrow> Some (length d0 + k + length d1))
      else None)"

text \<open>
  \<open>pattern.sub(replace, string)\<close>: the leftmost match is replaced and the scan goes on
  behind it.  A match has at least one character, that of the class.
\<close>

fun shortcode_sub :: "(ustring \<Rightarrow> ustring) \<Rightarrow> ustring \<Rightarrow> ustring \<Rightarrow> ustring \<Rightarrow> ustring" where
  "shortcode_sub repl d0 d1 [] = []"
| "shortcode_sub repl d0 d1 (c # cs) =
     (case match_shortcode d0 d1 (c # cs) of
        None \<Rightarrow> c # shortcode_sub repl d0 d1 cs
      | Some n \<Rightarrow> repl (take n (c # cs)) @ shortcode_sub repl d0 d1 (drop (n - 1) cs))"

definition emojize_replace ::
  "unicode_codes \<Rightarrow> bool \<Rightarrow> ustring \<times> ustring \<Rightarrow> ustring \<Rightarrow> ustring" where
  "emojize_replace T use_aliases delimiters m =
     (let mg = py_replace (snd delimiters) DEFAULT_DELIMITER
                 (py_replace (fst delimiters) DEFAULT_DELIMITER m)
      in if use_aliases then dict_get (EMOJI_ALIAS_UNICODE T) mg mg
         else dict_get (EMOJI_UNICODE T) mg mg)"

definition emojize ::
  "unicode_codes \<Rightarrow> ustring \<Rightarrow> bool \<Rightarrow> ustring \<times> ustring \<Rightarrow> ustring option" where
  "emojize T string use_aliases delimiters =
     (if literal_delimiter (fst delimiters) \<and> literal_delimiter (snd delimiters)
      then Some (shortcode_sub (emojize_replace T use_aliases delimiters)
                   (fst delimiters) (snd delimiters) string)
      else None)"

section \<open>demojize\<close>

text \<open>
  \<open>'|'.join\<close> of the escaped glyphs inside a group: the alternatives of the pattern in
  their order.  With no glyph at all the group is empty and matches the empty string.
\<close>

definition alternation :: "ustring list \<Rightarrow> ustring list" where
  "alternation emojis = (if emojis = [] then [[]] else emojis)"

text \<open>
  \<open>sorted(..., key=len, reverse=True)\<close> is stable: glyphs of the same length keep the
  order of the table.
\<close>

definition sorted_by_len_reverse :: "ustring list \<Rightarrow> ustring list" where
  "sorted_by_len_reverse xs = rev (sort_key length (rev xs))"

text \<open>
  The global \<open>_EMOJI_REGEXP\<close> is the second argument and the second result:
  \<open>None\<close> before the first call, the compiled pattern afterwards.
\<close>

definition get_emoji_regexp ::
  "unicode_codes \<Rightarrow> ustring list option \<Rightarrow> ustring list \<times> ustring list option" where
  "get_emoji_regexp T EMOJI_REGEXP =
     (case EMOJI_REGEXP of
        None \<Rightarrow>
          (let emojis = sorted_by_len_reverse (dict_values (EMOJI_UNICODE T));
               pattern = alternation emojis
           in (pattern, Some pattern))
      | Some pattern \<Rightarrow> (pattern, Some pattern))"

text \<open>
  The first alternative that matches at the start of \<open>s\<close>.  When the previous match was
  empty and ended here (\<open>must_advance\<close>), an empty match is refused and the later
  alternatives are tried.
\<close>

definition first_alt :: "ustring list \<Rightarrow> bool \<Rightarrow> ustring \<Rightarrow> ustring option" where
  "first_alt alts must_advance s =
     find (\<lambda>a. prefix a s \<and> (if a = [] then must_advance = False else True)) alts"

text \<open>\<open>pattern.sub(replace, string)\<close> for an alternation of literals (Python 3.7 and later).\<close>

function glyph_sub :: "ustring list \<Rightarrow> (ustring \<Rightarrow> ustring) \<Rightarrow> bool \<Rightarrow> ustring \<Rightarrow> ustring" where
  "glyph_sub alts repl must_advance [] =
     (case first_alt alts must_advance [] of None \<Rightarrow> [] | Some g \<Rightarrow> repl g)"
| "glyph_sub alts repl must_advance (c # cs) =
     (case first_alt alts must_advance (c # cs) of
        None \<Rightarrow> c # glyph_sub alts repl False cs
      | Some g \<Rightarrow>
          (if g = [] then repl g @ glyph_sub alts repl True (c # cs)
           else repl g @ glyph_sub alts repl False (drop (length g - 1) cs)))"
  by pat_completeness auto

termination
proof (relation "measure (\<lambda>(alts, repl, ma, s). 2 * length s + (if ma then 0 else 1))")
  show "wf (measure (\<lambda>(alts, repl, ma, s). 2 * length s + (if ma then 0 else (1::nat))))"
    by simp
next
  fix alts :: "ustring list" and repl :: "ustring \<Rightarrow> ustring"
    and must_advance :: bool and c :: codepoint and cs :: ustring
  show "((alts, repl, False, cs), (alts, repl, must_advance, c # cs))
        \<in> measure (\<lambda>(alts, repl, ma, s). 2 * length s + (if ma then 0 else 1))"
    by simp
next
  fix alts :: "ustring list" and repl :: "ustring \<Rightarrow> ustring"
    and must_advance :: bool and c :: codepoint and cs g :: ustring
  assume "first_alt alts must_advance (c # cs) = Some g" and "g = []"
  then have "must_advance = False"
    by (auto simp: first_alt_def find_Some_iff)
  then show "((alts, repl, True, c # cs), (alts, repl, must_advance, c # cs))
        \<in> measure (\<lambda>(alts, repl, ma, s). 2 * length s + (if ma then 0 else 1))"
    by simp
next
  fix alts :: "ustring list" and repl :: "ustring \<Rightarrow> ustring"
    and must_advance :: bool and c :: codepoint and cs g :: ustring
  show "((alts, repl, False, drop (length g - 1) cs), (alts, repl, must_advance, c # cs))
        \<in> measure (\<lambda>(alts, repl, ma, s). 2 * length s + (if ma then 0 else 1))"
    by simp
qed

text \<open>\<open>val[1:-1]\<close>.\<close>

definition slice_1_m1 :: "ustring \<Rightarrow> ustring" where
  "slice_1_m1 val = butlast (tl val)"

definition demojize_replace ::
  "unicode_codes \<Rightarrow> bool \<Rightarrow> ustring \<times> ustring \<Rightarrow> ustring \<Rightarrow> ustring" where
  "demojize_replace T use_aliases delimiters m =
     (let codes_dict = (if use_aliases then UNICODE_EMOJI_ALIAS T else UNICODE_EMOJI T);
          val = dict_get codes_dict m m
      in fst delimiters @ slice_1_m1 val @ snd delimiters)"

text \<open>
  \<open>re.sub\<close> with the one-character literal pattern U+FE0F replaces as \<open>str.replace\<close>
  does.
\<close>

definition demojize ::
  "unicode_codes \<Rightarrow> ustring list option \<Rightarrow> ustring \<Rightarrow> bool \<Rightarrow> ustring \<times> ustring
     \<Rightarrow> ustring \<times> ustring list option" where
  "demojize T EMOJI_REGEXP string use_aliases delimiters =
     (let (pattern, EMOJI_REGEXP') = get_emoji_regexp T EMOJI_REGEXP
      in (py_replace [0xFE0F] []
            (glyph_sub pattern (demojize_replace T use_aliases delimiters) False string),
          EMOJI_REGEXP'))"

section \<open>emoji\_lis and emoji\_count\<close>

record entity =
  location :: nat
  emoji :: ustring

fun emoji_lis_loop :: "unicode_codes \<Rightarrow> nat \<Rightarrow> entity list \<Rightarrow> ustring \<Rightarrow> entity list" where
  "emoji_lis_loop T pos entities [] = entities"
| "emoji_lis_loop T pos entities (c # cs) =
     (if dict_contains (UNICODE_EMOJI T) [c]
      then emoji_lis_loop T (pos + 1) (entities @ [\<lparr>location = pos, emoji = [c]\<rparr>]) cs
      else emoji_lis_loop T (pos + 1) entities cs)"

definition emoji_lis :: "unicode_codes \<Rightarrow> ustring \<Rightarrow> entity list" where
  "emoji_lis T string = emoji_lis_loop T 0 [] string"

fun emoji_count_loop :: "unicode_codes \<Rightarrow> int \<Rightarrow> ustring \<Rightarrow> int" where
  "emoji_count_loop T c [] = c"
| "emoji_count_loop T c (i # rest) =
     (if dict_contains (UNICODE_EMOJI T) [i]
      then emoji_count_loop T (c + 1) rest
      else emoji_count_loop T c rest)"

definition emoji_count :: "unicode_codes \<Rightarrow> ustring \<Rightarrow> int" where
  "emoji_count T string = emoji_count_loop T 0 string"

section \<open>Invariants and shapes used in the statements\<close>

text \<open>
  The cache is written by \<open>get_emoji_regexp\<close> only, and the table never changes: the
  cache is empty or holds the pattern built from the table.
\<close>

definition regexp_cache_inv :: "unicode_codes \<Rightarrow> ustring list option \<Rightarrow> bool" where
  "regexp_cache_inv T EMOJI_REGEXP =
     (case EMOJI_REGEXP of
        None \<Rightarrow> True
      | Some pattern \<Rightarrow>
          pattern = alternation (sorted_by_len_reverse (dict_values (EMOJI_UNICODE T))))"

text \<open>A shortcode \<open>:name:\<close> with the default delimiters.\<close>

definition shortcode :: "ustring \<Rightarrow> ustring" where
  "shortcode name = DEFAULT_DELIMITER @ name @ DEFAULT_DELIMITER"

text \<open>A name the shortcode pattern can match: one or more characters of the class.\<close>

definition token :: "ustring \<Rightarrow> bool" where
  "token name = (name \<noteq> [] \<and> list_all token_char name)"

text \<open>
  Whether the scan of \<open>pattern.sub\<close> over \<open>s\<close> arrives at the offset \<open>n\<close>: it does
  when every match that starts before \<open>n\<close> also ends at or before \<open>n\<close>, so that the
  offset is not inside a match.
\<close>

fun scan_arrives :: "ustring list \<Rightarrow> nat \<Rightarrow> ustring \<Rightarrow> bool" where
  "scan_arrives alts 0 s = True"
| "scan_arrives alts (Suc n) [] = False"
| "scan_arrives alts (Suc n) (c # cs) =
     (case first_alt alts False (c # cs) of
        None \<Rightarrow> scan_arrives alts n cs
      | Some a \<Rightarrow>
          (if a = [] then False
           else if Suc n < length a then False
           else scan_arrives alts (Suc n - length a) (drop (length a - 1) cs)))"

section \<open>Sample data\<close>

text \<open>
  A small table in the shape of \<open>unicode_codes\<close>, for concrete runs: the inverse
  dictionaries have no entry for the last glyph, and U+1F44D has two aliases.
\<close>

definition sample_codes :: unicode_codes where
  "sample_codes =
     \<lparr>EMOJI_UNICODE =
        [(ustr '':thumbs_up:'', [0x1F44D]),
         (ustr '':hushed_face:'', [0x1F62F]),
         (ustr '':red_heart:'', [0x2764, 0xFE0F]),
         (ustr '':heavy_black_heart:'', [0x2764]),
         (ustr '':probe:'', [0x1F9EA])],
      EMOJI_ALIAS_UNICODE =
        [(ustr '':thumbs_up:'', [0x1F44D]),
         (ustr '':hushed_face:'', [0x1F62F]),
         (ustr '':red_heart:'', [0x2764, 0xFE0F]),
         (ustr '':heavy_black_heart:'', [0x2764]),
         (ustr '':thumbsup:'', [0x1F44D]),
         (ustr '':+1:'', [0x1F44D]),
         (ustr '':hushed:'', [0x1F62F])],
      UNICODE_EMOJI =
        [([0x1F44D], ustr '':thumbs_up:''),
         ([0x1F62F], ustr '':hushed_face:''),
         ([0x2764, 0xFE0F], ustr '':red_heart:''),
         ([0x2764], ustr '':heavy_black_heart:'')],
      UNICODE_EMOJI_ALIAS =
        [([0x1F44D], ustr '':thumbsup:''),
         ([0x1F62F], ustr '':hushed:''),
         ([0x2764, 0xFE0F], ustr '':red_heart:''),
         ([0x2764], ustr '':heavy_black_heart:'')]\<rparr>"

text \<open>
  A second table, with joined sequences whose parts are glyphs of their own, and a keycap.
\<close>

definition family_codes :: unicode_codes where
  "family_codes =
     \<lparr>EMOJI_UNICODE =
        [(ustr '':woman:'', [0x1F469]),
         (ustr '':girl:'', [0x1F467]),
         (ustr '':family_woman_girl:'', [0x1F469, 0x200D, 0x1F467]),
         (ustr '':couple_ww:'', [0x1F469, 0x200D, 0x1F469]),
         (ustr '':keycap_1:'', [0x31, 0xFE0F, 0x20E3]),
         (ustr '':red_heart:'', [0x2764, 0xFE0F]),
         (ustr '':heavy_black_heart:'', [0x2764])],
      EMOJI_ALIAS_UNICODE =
        [(ustr '':woman:'', [0x1F469]),
         (ustr '':girl:'', [0x1F467]),
         (ustr '':family_woman_girl:'', [0x1F469, 0x200D, 0x1F467]),
         (ustr '':couple_ww:'', [0x1F469, 0x200D, 0x1F469]),
         (ustr '':keycap_1:'', [0x31, 0xFE0F, 0x20E3]),
         (ustr '':red_heart:'', [0x2764, 0xFE0F]),
         (ustr '':heavy_black_heart:'', [0x2764])],
      UNICODE_EMOJI =
        [([0x1F469], ustr '':woman:''),
         ([0x1F467], ustr '':girl:''),
         ([0x1F469, 0x200D, 0x1F467], ustr '':family_woman_girl:''),
         ([0x1F469, 0x200D, 0x1F469], ustr '':couple_ww:''),
         ([0x31, 0xFE0F, 0x20E3], ustr '':keycap_1:''),
         ([0x2764, 0xFE0F], ustr '':red_heart:''),
         ([0x2764], ustr '':heavy_black_heart:'')],
      UNICODE_EMOJI_ALIAS =
        [([0x1F469], ustr '':woman:''),
         ([0x1F467], ustr '':girl:''),
         ([0x1F469, 0x200D, 0x1F467], ustr '':family_woman_girl:''),
         ([0x1F469, 0x200D, 0x1F469], ustr '':couple_ww:''),
         ([0x31, 0xFE0F, 0x20E3], ustr '':keycap_1:''),
         ([0x2764, 0xFE0F], ustr '':red_heart:''),
         ([0x2764], ustr '':heavy_black_heart:'')]\<rparr>"

section \<open>Auxiliary lemmas\<close>

lemmas model_defs =
  ustr_def py_replace_def DEFAULT_DELIMITER_def dict_get_def dict_values_def
  dict_contains_def token_char_def match_shortcode_def emojize_replace_def emojize_def
  alternation_def sorted_by_len_reverse_def get_emoji_regexp_def first_alt_def slice_1_m1_def
  demojize_replace_def demojize_def emoji_lis_def emoji_count_def
  strip_selector_def to_code_point_def format_x_def hex_digit_def hex_nat.simps Let_def
  literal_delimiter_def regex_special_def

lemma replace_scan_single: "replace_scan [c] [] s = filter (\<lambda>x. x \<noteq> c) s"
  by (induction s) auto

lemma py_replace_single: "py_replace [c] [] s = filter (\<lambda>x. x \<noteq> c) s"
  by (simp add: py_replace_def replace_scan_single)

lemma strip_selector_prefix:
  "strip_selector s =
     Inr (if 0x200D \<in> set s \<and> \<not> prefix [0x1F441] s then s
          else filter (\<lambda>c. c \<noteq> 0xFE0F) s)"
  by (cases s) (auto simp: strip_selector_def py_replace_single)

lemma loop_acc:
  "code_point_loop p r s =
     (fst (code_point_loop p [] s), r @ snd (code_point_loop p [] s))"
proof (induction s arbitrary: p r)
  case Nil
  show ?case by simp
next
  case (Cons ch rest)
  show ?case
    using Cons.IH [of 0 "r @ [x]" for x] Cons.IH [of 0 "[x]" for x] Cons.IH [of "int ch" r]
    by (simp add: Let_def)
qed

lemma loop_append:
  "code_point_loop p r (s @ t) =
     code_point_loop (fst (code_point_loop p r s)) (snd (code_point_loop p r s)) t"
  by (induction s arbitrary: p r) (simp_all add: Let_def)

lemma lis_loop:
  "emoji_lis_loop T pos ents s =
     ents @ map (\<lambda>(i, c). \<lparr>location = i, emoji = [c]\<rparr>)
              (filter (\<lambda>(i, c). dict_contains (UNICODE_EMOJI T) [c]) (enumerate pos s))"
  by (induction s arbitrary: pos ents) simp_all

lemma count_loop:
  "emoji_count_loop T n s =
     n + int (length (filter (\<lambda>c. dict_contains (UNICODE_EMOJI T) [c]) s))"
  by (induction s arbitrary: n) simp_all

lemma filter_enumerate_length:
  "length (filter (\<lambda>(i, c). P c) (enumerate pos s)) = length (filter P s)"
  by (induction s arbitrary: pos) simp_all

lemma set_sorted_by_len_reverse: "set (sorted_by_len_reverse xs) = set xs"
  by (simp add: sorted_by_len_reverse_def)

lemma sorted_by_len_reverse_sorted:
  "sorted_wrt (\<lambda>a b. length b \<le> length a) (sorted_by_len_reverse xs)"
proof -
  have "sorted (map length (sort_key length (rev xs)))"
    by (rule sorted_sort_key)
  then have "sorted_wrt (\<lambda>a b. length a \<le> length b) (sort_key length (rev xs))"
    by (simp add: sorted_map)
  then show ?thesis
    by (simp add: sorted_by_len_reverse_def sorted_wrt_rev)
qed

lemma get_emoji_regexp_inv:
  assumes "regexp_cache_inv T cache"
  shows "fst (get_emoji_regexp T cache)
           = alternation (sorted_by_len_reverse (dict_values (EMOJI_UNICODE T)))"
    and "regexp_cache_inv T (snd (get_emoji_regexp T cache))"
  using assms
  by (auto simp: get_emoji_regexp_def regexp_cache_inv_def Let_def split: option.splits)

lemma pattern_no_empty:
  assumes "g \<in> set glyphs" and "[] \<notin> set glyphs"
  shows "alternation (sorted_by_len_reverse glyphs) = sorted_by_len_reverse glyphs"
    and "[] \<notin> set (sorted_by_len_reverse glyphs)"
    and "g \<in> set (sorted_by_len_reverse glyphs)"
proof -
  have "sorted_by_len_reverse glyphs \<noteq> []"
    using assms(1) set_sorted_by_len_reverse [of glyphs] by fastforce
  then show "alternation (sorted_by_len_reverse glyphs) = sorted_by_len_reverse glyphs"
    by (simp add: alternation_def)
  show "[] \<notin> set (sorted_by_len_reverse glyphs)" "g \<in> set (sorted_by_len_reverse glyphs)"
    using assms by (simp_all add: set_sorted_by_len_reverse)
qed

lemma first_alt_no_empty:
  "[] \<notin> set alts \<Longrightarrow> first_alt alts ma s = find (\<lambda>a. prefix a s) alts"
  unfolding first_alt_def by (rule find_cong) auto

lemma find_longest:
  assumes sorted: "sorted_wrt (\<lambda>a b. length b \<le> length a) alts"
    and g: "g \<in> set alts"
    and longer: "\<forall>a \<in> set alts. prefix a (g @ post) \<longrightarrow> length a \<le> length g"
  shows "find (\<lambda>a. prefix a (g @ post)) alts = Some g"
proof -
  have "find (\<lambda>a. prefix a (g @ post)) alts \<noteq> None"
    using g by (auto simp: find_None_iff)
  then obtain a where a: "find (\<lambda>a. prefix a (g @ post)) alts = Some a"
    by blast
  then obtain i where i: "i < length alts" "prefix (alts ! i) (g @ post)" "a = alts ! i"
    and first: "\<forall>j<i. \<not> prefix (alts ! j) (g @ post)"
    by (auto simp: find_Some_iff)
  obtain k where k: "k < length alts" "alts ! k = g"
    using g by (auto simp: in_set_conv_nth)
  have "\<not> k < i"
    using first k by auto
  then have "length g \<le> length a"
    using sorted i k by (cases "i = k") (auto simp: sorted_wrt_iff_nth_less)
  moreover have "length a \<le> length g"
    using longer i by auto
  ultimately have "length a = length g"
    by simp
  then have "a = g"
    using i(2,3) by (auto simp: prefix_def)
  with a show ?thesis by simp
qed

lemma glyph_sub_no_empty_flag:
  "[] \<notin> set alts \<Longrightarrow> glyph_sub alts repl ma s = glyph_sub alts repl False s"
  by (cases s) (simp_all add: first_alt_no_empty)

lemma glyph_sub_end:
  assumes "[] \<notin> set alts"
  shows "glyph_sub alts repl ma [] = []"
proof -
  have "find (\<lambda>a. prefix a []) alts = None"
    using assms by (auto simp: find_None_iff)
  then show ?thesis
    by (simp add: first_alt_no_empty [OF assms])
qed

lemma glyph_sub_skip:
  assumes "[] \<notin> set alts" and "\<forall>a \<in> set alts. hd a \<notin> set pre"
  shows "glyph_sub alts repl False (pre @ rest) = pre @ glyph_sub alts repl False rest"
  using assms(2)
proof (induction pre)
  case Nil
  show ?case by simp
next
  case (Cons c pre)
  have "find (\<lambda>a. prefix a (c # pre @ rest)) alts = None"
  proof -
    have "\<not> prefix a (c # pre @ rest)" if "a \<in> set alts" for a
    proof -
      from that assms(1) have "a \<noteq> []"
        by auto
      then obtain x xs where "a = x # xs"
        by (cases a) auto
      moreover from that Cons.prems have "hd a \<noteq> c"
        by auto
      ultimately show ?thesis by simp
    qed
    then show ?thesis by (auto simp: find_None_iff)
  qed
  moreover have "\<forall>a \<in> set alts. hd a \<notin> set pre"
    using Cons.prems by auto
  ultimately show ?case
    using Cons.IH by (simp add: first_alt_no_empty [OF assms(1)])
qed

lemma glyph_sub_match:
  assumes "[] \<notin> set alts" and "g \<in> set alts"
    and "find (\<lambda>a. prefix a (g @ post)) alts = Some g"
  shows "glyph_sub alts repl False (g @ post) = repl g @ glyph_sub alts repl False post"
proof -
  from assms(1,2) have "g \<noteq> []"
    by auto
  then obtain x xs where g: "g = x # xs"
    by (cases g) auto
  show ?thesis
    using assms(3) by (simp add: g first_alt_no_empty [OF assms(1)])
qed

lemma regexp_cache_inv_initial: "regexp_cache_inv T None"
  by (simp add: regexp_cache_inv_def)

lemma demojize_fst:
  "fst (demojize T cache s ua ds) =
     py_replace [0xFE0F] []
       (glyph_sub (fst (get_emoji_regexp T cache)) (demojize_replace T ua ds) False s)"
  by (simp add: demojize_def split: prod.splits)

lemma demojize_at_glyph:
  assumes inv: "regexp_cache_inv T cache"
    and g: "g \<in> set (dict_values (EMOJI_UNICODE T))"
    and ne: "[] \<notin> set (dict_values (EMOJI_UNICODE T))"
    and pre: "\<forall>a \<in> set (dict_values (EMOJI_UNICODE T)). hd a \<notin> set pre"
    and longer: "\<forall>a \<in> set (dict_values (EMOJI_UNICODE T)).
                   prefix a (g @ post) \<longrightarrow> length a \<le> length g"
  shows "fst (demojize T cache (pre @ g @ post) ua ds) =
           py_replace [0xFE0F] [] (pre @ demojize_replace T ua ds g)
             @ fst (demojize T cache post ua ds)"
proof -
  let ?alts = "sorted_by_len_reverse (dict_values (EMOJI_UNICODE T))"
  let ?repl = "demojize_replace T ua ds"
  have pat: "fst (get_emoji_regexp T cache) = ?alts"
    using get_emoji_regexp_inv(1) [OF inv] pattern_no_empty(1) [OF g ne] by simp
  have ne': "[] \<notin> set ?alts" and g': "g \<in> set ?alts"
    using pattern_no_empty(2,3) [OF g ne] by simp_all
  have "find (\<lambda>a. prefix a (g @ post)) ?alts = Some g"
    using sorted_by_len_reverse_sorted g' longer
    by (intro find_longest) (simp_all add: set_sorted_by_len_reverse)
  then have "glyph_sub ?alts ?repl False (g @ post) = ?repl g @ glyph_sub ?alts ?repl False post"
    using ne' g' by (rule glyph_sub_match [rotated 2])
  moreover have "glyph_sub ?alts ?repl False (pre @ g @ post)
                   = pre @ glyph_sub ?alts ?repl False (g @ post)"
    using ne' pre by (intro glyph_sub_skip) (simp_all add: set_sorted_by_len_reverse)
  ultimately have "glyph_sub ?alts ?repl False (pre @ g @ post)
                     = (pre @ ?repl g) @ glyph_sub ?alts ?repl False post"
    by simp
  then show ?thesis
    by (simp add: demojize_fst pat py_replace_single)
qed

lemma demojize_empty:
  assumes inv: "regexp_cache_inv T cache"
    and g: "g \<in> set (dict_values (EMOJI_UNICODE T))"
    and ne: "[] \<notin> set (dict_values (EMOJI_UNICODE T))"
  shows "fst (demojize T cache [] ua ds) = []"
proof -
  have pat: "fst (get_emoji_regexp T cache)
               = sorted_by_len_reverse (dict_values (EMOJI_UNICODE T))"
    using get_emoji_regexp_inv(1) [OF inv] pattern_no_empty(1) [OF g ne] by simp
  have "glyph_sub (sorted_by_len_reverse (dict_values (EMOJI_UNICODE T)))
          (demojize_replace T ua ds) False [] = []"
    by (rule glyph_sub_end [OF pattern_no_empty(2) [OF g ne]])
  then show ?thesis
    unfolding demojize_fst pat by (simp add: py_replace_def)
qed

lemma demojize_glyph_alone:
  assumes inv: "regexp_cache_inv T cache"
    and g: "g \<in> set (dict_values (EMOJI_UNICODE T))"
    and ne: "[] \<notin> set (dict_values (EMOJI_UNICODE T))"
  shows "fst (demojize T cache g ua ds) = py_replace [0xFE0F] [] (demojize_replace T ua ds g)"
proof -
  have "\<forall>a \<in> set (dict_values (EMOJI_UNICODE T)). prefix a (g @ []) \<longrightarrow> length a \<le> length g"
    by (auto simp: prefix_def)
  then show ?thesis
    using demojize_at_glyph [OF inv g ne, of "[]" "[]" ua ds] demojize_empty [OF inv g ne]
    by simp
qed

lemma demojize_keeps_cache_inv:
  "regexp_cache_inv T cache \<Longrightarrow> regexp_cache_inv T (snd (demojize T cache s ua ds))"
  using get_emoji_regexp_inv(2) [of T cache]
  by (auto simp: demojize_def split: prod.splits)

lemma default_delimiter_literal: "literal_delimiter DEFAULT_DELIMITER"
  by (simp add: literal_delimiter_def DEFAULT_DELIMITER_def regex_special_def)

lemma replace_scan_same: "replace_scan [c] [c] s = s"
  by (induction s) auto

lemma py_replace_same: "py_replace [c] [c] s = s"
  by (simp add: py_replace_def replace_scan_same)

lemma token_char_colon: "\<not> token_char 58"
  by (simp add: token_char_def)

lemma token_char_selector: "\<not> token_char 0xFE0F"
  by (simp add: token_char_def)

lemma close_at_token:
  assumes "name \<noteq> []"
  shows "close_at [58] (name @ [58]) (length name) = Some (length name)"
proof -
  from assms obtain k where k: "length name = Suc k"
    by (cases name) auto
  show ?thesis
    by (simp add: k)
qed

lemma match_shortcode_token:
  assumes "token name"
  shows "match_shortcode [58] [58] (58 # name @ [58]) = Some (length name + 2)"
proof -
  have all: "\<forall>x \<in> set name. token_char x" and ne: "name \<noteq> []"
    using assms by (simp_all add: token_def list_all_iff)
  have "takeWhile token_char (name @ [58]) = name"
    using all by (simp add: takeWhile_append2 token_char_colon)
  then show ?thesis
    using close_at_token [OF ne] by (simp add: match_shortcode_def)
qed

lemma emojize_shortcode:
  assumes "token name"
  shows "emojize T (shortcode name) ua (DEFAULT_DELIMITER, DEFAULT_DELIMITER)
           = Some (dict_get (if ua then EMOJI_ALIAS_UNICODE T else EMOJI_UNICODE T)
                     (shortcode name) (shortcode name))"
proof -
  have "take (length name + 2) (58 # name @ [58]) = 58 # name @ [58]"
    by simp
  then show ?thesis
    using match_shortcode_token [OF assms] default_delimiter_literal
    by (simp add: emojize_def shortcode_def DEFAULT_DELIMITER_def emojize_replace_def
        py_replace_same Let_def)
qed

lemma find_prefix_shorter:
  assumes "find (\<lambda>a. prefix a (xs @ ys)) alts = Some a" and "length a \<le> length xs"
  shows "find (\<lambda>a. prefix a xs) alts = Some a"
proof -
  from assms(1) obtain i where i: "i < length alts" "prefix (alts ! i) (xs @ ys)" "a = alts ! i"
    and first: "\<forall>j<i. \<not> prefix (alts ! j) (xs @ ys)"
    by (auto simp: find_Some_iff)
  have "prefix xs (xs @ ys)"
    by simp
  with i(2,3) assms(2) have "prefix a xs"
    using prefix_length_prefix by blast
  moreover have "\<forall>j<i. \<not> prefix (alts ! j) xs"
    using first by (auto intro: prefix_order.trans)
  ultimately show ?thesis
    using i by (auto simp: find_Some_iff)
qed

lemma find_prefix_none:
  assumes "find (\<lambda>a. prefix a (xs @ ys)) alts = None"
  shows "find (\<lambda>a. prefix a xs) alts = None"
  using assms by (auto simp: find_None_iff intro: prefix_order.trans)

lemma glyph_sub_split:
  assumes ne: "[] \<notin> set alts"
  shows "scan_arrives alts (length pre) (pre @ rest) \<Longrightarrow>
         glyph_sub alts repl False (pre @ rest)
           = glyph_sub alts repl False pre @ glyph_sub alts repl False rest"
proof (induction "length pre" arbitrary: pre rule: less_induct)
  case less
  show ?case
  proof (cases pre)
    case Nil
    then show ?thesis
      using glyph_sub_end [OF ne] by simp
  next
    case (Cons c p)
    show ?thesis
    proof (cases "find (\<lambda>a. prefix a ((c # p) @ rest)) alts")
      case None
      then have arr: "scan_arrives alts (length p) (p @ rest)"
        using less.prems by (simp add: Cons first_alt_no_empty [OF ne])
      have "find (\<lambda>a. prefix a (c # p)) alts = None"
        by (rule find_prefix_none [OF None])
      moreover have "glyph_sub alts repl False (p @ rest)
          = glyph_sub alts repl False p @ glyph_sub alts repl False rest"
        using less.hyps [of p] arr by (simp add: Cons)
      ultimately show ?thesis
        using None by (simp add: Cons first_alt_no_empty [OF ne])
    next
      case (Some a)
      then have "a \<in> set alts"
        by (auto simp: find_Some_iff)
      with ne have a: "a \<noteq> []"
        by auto
      have len: "length a \<le> Suc (length p)"
        and arr: "scan_arrives alts (Suc (length p) - length a) (drop (length a - 1) (p @ rest))"
        using less.prems Some a
        by (simp_all add: Cons first_alt_no_empty [OF ne] split: if_splits)
      let ?p = "drop (length a - 1) p"
      have split: "drop (length a - 1) (p @ rest) = ?p @ rest"
        using len by simp
      have lp: "length ?p = Suc (length p) - length a"
        using a by (cases a) simp_all
      have "find (\<lambda>a. prefix a (c # p)) alts = Some a"
        using find_prefix_shorter [OF Some] len by simp
      moreover have "glyph_sub alts repl False (?p @ rest)
          = glyph_sub alts repl False ?p @ glyph_sub alts repl False rest"
      proof -
        have arr': "scan_arrives alts (length ?p) (?p @ rest)"
          using arr by (simp only: split lp)
        have "length ?p < length pre"
          by (simp add: Cons)
        then show ?thesis
          using arr' by (rule less.hyps)
      qed
      ultimately show ?thesis
        using Some a len by (simp add: Cons first_alt_no_empty [OF ne])
    qed
  qed
qed

lemma demojize_split:
  assumes inv: "regexp_cache_inv T cache"
    and g: "g \<in> set (dict_values (EMOJI_UNICODE T))"
    and ne: "[] \<notin> set (dict_values (EMOJI_UNICODE T))"
    and arr: "scan_arrives (fst (get_emoji_regexp T cache)) (length pre) (pre @ g @ post)"
    and longer: "\<forall>a \<in> set (dict_values (EMOJI_UNICODE T)).
                   prefix a (g @ post) \<longrightarrow> length a \<le> length g"
  shows "fst (demojize T cache (pre @ g @ post) ua ds) =
           fst (demojize T cache pre ua ds)
             @ py_replace [0xFE0F] [] (demojize_replace T ua ds g)
             @ fst (demojize T cache post ua ds)"
proof -
  let ?alts = "sorted_by_len_reverse (dict_values (EMOJI_UNICODE T))"
  let ?repl = "demojize_replace T ua ds"
  have pat: "fst (get_emoji_regexp T cache) = ?alts"
    using get_emoji_regexp_inv(1) [OF inv] pattern_no_empty(1) [OF g ne] by simp
  have ne': "[] \<notin> set ?alts" and g': "g \<in> set ?alts"
    using pattern_no_empty(2,3) [OF g ne] by simp_all
  have "find (\<lambda>a. prefix a (g @ post)) ?alts = Some g"
    using sorted_by_len_reverse_sorted g' longer
    by (intro find_longest) (simp_all add: set_sorted_by_len_reverse)
  then have "glyph_sub ?alts ?repl False (g @ post) = ?repl g @ glyph_sub ?alts ?repl False post"
    using ne' g' by (rule glyph_sub_match [rotated 2])
  moreover have "glyph_sub ?alts ?repl False (pre @ g @ post)
                   = glyph_sub ?alts ?repl False pre @ glyph_sub ?alts ?repl False (g @ post)"
    using arr unfolding pat by (rule glyph_sub_split [OF ne'])
  ultimately have "glyph_sub ?alts ?repl False (pre @ g @ post)
      = glyph_sub ?alts ?repl False pre @ ?repl g @ glyph_sub ?alts ?repl False post"
    by simp
  then show ?thesis
    by (simp add: demojize_fst pat py_replace_single)
qed

section \<open>to\_code\_point: the variation selector and the surrogates\<close>

text \<open>
  Claim C5, as stated: U+FE0F is stripped unless the input contains U+200D or begins with
  U+1F441, and in both of those cases the selectors are retained.  The eye in speech
  bubble (U+1F441 U+FE0F U+200D U+1F5E8 U+FE0F) contains U+200D and begins with U+1F441,
  yet its selectors are stripped: the result is \<open>1f441-200d-1f5e8\<close>, not what the scan of
  the unchanged string gives.
\<close>

theorem to_code_point_eye_selector_stripped:
  "(0x200D \<in> set [0x1F441, 0xFE0F, 0x200D, 0x1F5E8, 0xFE0F :: nat]
      \<or> prefix [0x1F441] [0x1F441, 0xFE0F, 0x200D, 0x1F5E8, 0xFE0F :: nat])
   \<and> to_code_point [0x1F441, 0xFE0F, 0x200D, 0x1F5E8, 0xFE0F] (ustr ''-'')
       = Inr (ustr ''1f441-200d-1f5e8'')
   \<and> Inr (py_join (ustr ''-'')
           (snd (code_point_loop 0 [] [0x1F441, 0xFE0F, 0x200D, 0x1F5E8, 0xFE0F])))
       = (Inr (ustr ''1f441-fe0f-200d-1f5e8-fe0f'') :: py_error + ustring)
   \<and> to_code_point [0x1F441, 0xFE0F, 0x200D, 0x1F5E8, 0xFE0F] (ustr ''-'')
       \<noteq> Inr (py_join (ustr ''-'')
               (snd (code_point_loop 0 [] [0x1F441, 0xFE0F, 0x200D, 0x1F5E8, 0xFE0F])))"
  by (simp add: model_defs)

text \<open>
  Claim C5, amended: \<open>to_code_point\<close> never fails; it scans the input with its
  U+FE0F selectors retained exactly when the input contains U+200D and does not begin with
  U+1F441, and scans the input with every U+FE0F removed in all other cases (no U+200D,
  or a first character U+1F441).
\<close>

theorem to_code_point_selector_rule:
  "to_code_point s j =
     Inr (py_join j (snd (code_point_loop 0 []
            (if 0x200D \<in> set s \<and> \<not> prefix [0x1F441] s then s
             else filter (\<lambda>c. c \<noteq> 0xFE0F) s))))"
  by (simp add: to_code_point_def strip_selector_prefix)

theorem to_code_point_selector_rule_witness:
  "to_code_point [0x1F468, 0x200D, 0x2764, 0xFE0F, 0x200D, 0x1F468] (ustr ''-'')
     = Inr (ustr ''1f468-200d-2764-fe0f-200d-1f468'')
   \<and> to_code_point [0x2764, 0xFE0F] (ustr ''-'') = Inr (ustr ''2764'')
   \<and> to_code_point [0x1F441, 0xFE0F, 0x200D, 0x1F5E8, 0xFE0F] (ustr ''-'')
     = Inr (ustr ''1f441-200d-1f5e8'')"
  using to_code_point_selector_rule
          [of "[0x1F468, 0x200D, 0x2764, 0xFE0F, 0x200D, 0x1F468]" "ustr ''-''"]
        to_code_point_selector_rule [of "[0x2764, 0xFE0F]" "ustr ''-''"]
        to_code_point_selector_rule
          [of "[0x1F441, 0xFE0F, 0x200D, 0x1F5E8, 0xFE0F]" "ustr ''-''"]
  by (simp add: ustr_def format_x_def hex_digit_def hex_nat.simps)

text \<open>
  Claim C6, as stated: a lead surrogate that is not followed by a trail surrogate is
  dropped and the characters after it are encoded as if it were absent.  The lead U+D83D
  followed by the letter A (U+0041, not a trail surrogate) gives the single group
  \<open>11841\<close>, whereas the letter alone gives \<open>41\<close>.
\<close>

theorem to_code_point_lead_then_letter:
  "(0xD800 :: nat) \<le> 0xD83D \<and> (0xD83D :: nat) \<le> 0xDBFF \<and> \<not> (0xDC00 :: nat) \<le> 0x41
   \<and> to_code_point [0xD83D, 0x41] (ustr ''-'') = Inr (ustr ''11841'')
   \<and> to_code_point [0x41] (ustr ''-'') = Inr (ustr ''41'')
   \<and> to_code_point [0xD83D, 0x41] (ustr ''-'') \<noteq> to_code_point [0x41] (ustr ''-'')"
  by (simp add: model_defs)

text \<open>
  Claim C6, amended: let the string that is scanned (the input after the selector step)
  reach a lead surrogate \<open>c\<close> in 0xD800..0xDBFF with no lead pending.  If \<open>c\<close> is the
  last character, it contributes nothing to the output.  If a character \<open>d\<close> follows,
  trail surrogate or not, \<open>c\<close> and \<open>d\<close> together give the one group
  \<open>0x10000 + ((c - 0xD800) << 10) + (d - 0xDC00)\<close>, and the scan goes on behind \<open>d\<close>
  with nothing pending.
\<close>

theorem to_code_point_lead_surrogate:
  assumes "0xD800 \<le> c" and "c \<le> 0xDBFF" and "fst (code_point_loop 0 [] s) = 0"
  shows "(strip_selector x = Inr (s @ [c]) \<longrightarrow>
            to_code_point x j = Inr (py_join j (snd (code_point_loop 0 [] s))))
       \<and> (strip_selector x = Inr (s @ c # d # t) \<longrightarrow>
            to_code_point x j =
              Inr (py_join j (snd (code_point_loop 0 [] s)
                    @ [format_x (0x10000 + push_bit 10 (int c - 0xD800) + (int d - 0xDC00))]
                    @ snd (code_point_loop 0 [] t))))"
proof -
  obtain r where r: "code_point_loop 0 [] s = (0, r)"
    using assms(3) by (cases "code_point_loop 0 [] s") simp
  have last: "snd (code_point_loop 0 [] (s @ [c])) = r"
    using assms(1,2) by (simp add: loop_append r)
  have "code_point_loop 0 [] (s @ c # d # t) =
          code_point_loop 0
            (r @ [format_x (0x10000 + push_bit 10 (int c - 0xD800) + (int d - 0xDC00))]) t"
    using assms(1,2) by (simp add: loop_append r)
  then have mid: "snd (code_point_loop 0 [] (s @ c # d # t)) =
      r @ [format_x (0x10000 + push_bit 10 (int c - 0xD800) + (int d - 0xDC00))]
        @ snd (code_point_loop 0 [] t)"
    by (simp add: loop_acc [of 0 "r @ [x]" t for x])
  show ?thesis
    by (simp add: to_code_point_def last mid r)
qed

theorem to_code_point_lead_surrogate_witness:
  "(0xD800 :: nat) \<le> 0xD83D \<and> (0xD83D :: nat) \<le> 0xDBFF
   \<and> fst (code_point_loop 0 [] [0x41]) = 0
   \<and> strip_selector [0x41, 0xD83D] = Inr ([0x41] @ [0xD83D])
   \<and> to_code_point [0x41, 0xD83D] (ustr ''-'') = Inr (ustr ''41'')
   \<and> strip_selector [0x41, 0xD83D, 0x42, 0x43] = Inr ([0x41] @ 0xD83D # 0x42 # [0x43])
   \<and> to_code_point [0x41, 0xD83D, 0x42, 0x43] (ustr ''-'') = Inr (ustr ''41-11842-43'')"
proof -
  have lead: "(0xD800 :: nat) \<le> 0xD83D" "(0xD83D :: nat) \<le> 0xDBFF"
    by simp_all
  have pend: "fst (code_point_loop 0 [] [0x41]) = 0"
    by simp
  have s1: "strip_selector [0x41, 0xD83D] = Inr ([0x41] @ [0xD83D])"
    by (simp add: strip_selector_def py_replace_def)
  have s2: "strip_selector [0x41, 0xD83D, 0x42, 0x43] = Inr ([0x41] @ 0xD83D # 0x42 # [0x43])"
    by (simp add: strip_selector_def py_replace_def)
  note inst = to_code_point_lead_surrogate [OF lead pend]
  have "to_code_point [0x41, 0xD83D] (ustr ''-'') = Inr (ustr ''41'')"
    using inst [where x = "[0x41, 0xD83D]" and j = "ustr ''-''"] s1
    by (simp add: ustr_def format_x_def hex_digit_def hex_nat.simps)
  moreover have "to_code_point [0x41, 0xD83D, 0x42, 0x43] (ustr ''-'') = Inr (ustr ''41-11842-43'')"
    using inst [where x = "[0x41, 0xD83D, 0x42, 0x43]" and d = "0x42" and t = "[0x43]"
                      and j = "ustr ''-''"] s2
    by (simp add: ustr_def format_x_def hex_digit_def hex_nat.simps)
  ultimately show ?thesis
    using lead pend s1 s2 by simp
qed

text \<open>
  Claim C10: \<open>to_code_point\<close> of the empty string is the empty string, for every joiner,
  and it is a result, not the \<open>IndexError\<close> of \<open>string[0]\<close>: the selector step
  itself returns the empty string.
\<close>

theorem to_code_point_empty:
  "to_code_point [] joiner = Inr [] \<and> strip_selector [] = Inr []"
  by (simp add: to_code_point_def strip_selector_def py_replace_def)

theorem to_code_point_empty_witness:
  "to_code_point [] (ustr ''-'') = Inr [] \<and> strip_selector [] = Inr []"
  using to_code_point_empty [of "ustr ''-''"] by simp

section \<open>emoji\_count and emoji\_lis\<close>

text \<open>
  Claim C8: for every string, \<open>emoji_count\<close> is the length of the list \<open>emoji_lis\<close>
  returns, and both select exactly the single characters of the string that are keys of
  \<open>UNICODE_EMOJI\<close>: \<open>emoji_lis\<close> lists them with their positions, in order.
\<close>

theorem emoji_count_is_length_emoji_lis:
  "emoji_count T s = int (length (emoji_lis T s))
   \<and> emoji_lis T s =
       map (\<lambda>(i, c). \<lparr>location = i, emoji = [c]\<rparr>)
         (filter (\<lambda>(i, c). dict_contains (UNICODE_EMOJI T) [c]) (enumerate 0 s))
   \<and> emoji_count T s = int (length (filter (\<lambda>c. dict_contains (UNICODE_EMOJI T) [c]) s))"
  by (simp add: emoji_count_def emoji_lis_def lis_loop count_loop filter_enumerate_length)

theorem emoji_count_is_length_emoji_lis_witness:
  "emoji_count sample_codes (ustr ''Hi '' @ [0x1F62F, 0x2764, 0xFE0F]) = 2
   \<and> emoji_lis sample_codes (ustr ''Hi '' @ [0x1F62F, 0x2764, 0xFE0F])
       = [\<lparr>location = 3, emoji = [0x1F62F]\<rparr>, \<lparr>location = 4, emoji = [0x2764]\<rparr>]"
  using emoji_count_is_length_emoji_lis
          [of sample_codes "ustr ''Hi '' @ [0x1F62F, 0x2764, 0xFE0F]"]
  by (simp add: sample_codes_def ustr_def dict_contains_def)

section \<open>demojize\<close>

text \<open>
  Claim C9: whatever the table, the state of the pattern cache, the input, the naming mode
  and the delimiters, the string \<open>demojize\<close> returns has no U+FE0F in it.
\<close>

theorem demojize_no_variation_selector:
  "0xFE0F \<notin> set (fst (demojize T EMOJI_REGEXP string use_aliases delimiters))"
  by (simp add: demojize_def py_replace_single split: prod.splits)

theorem demojize_no_variation_selector_witness:
  "fst (demojize sample_codes None [0xFE0F, 0x2764, 0xFE0F, 0x41, 0xFE0F] False
          ([0x3C, 0xFE0F], [0x3E]))
     = ustr ''<red_heart>A''"
  using demojize_no_variation_selector
          [of sample_codes None "[0xFE0F, 0x2764, 0xFE0F, 0x41, 0xFE0F]" False
              "([0x3C, 0xFE0F], [0x3E])"]
  by (simp add: sample_codes_def model_defs)

text \<open>
  Claim C2, as stated: when a multi-codepoint glyph and one of its single code points are
  both in the table, \<open>demojize\<close> of a text containing the multi-codepoint glyph replaces
  it by its own name, never by the name of the component.  In the second table the
  sequence woman, joiner, girl is a glyph, and so are the girl alone and the sequence
  woman, joiner, woman.  The text woman, joiner, woman, joiner, girl contains the first
  sequence from its third character on, but the scan has already taken the first three
  characters as \<open>:couple_ww:\<close>, and the girl comes out under her own name.
\<close>

theorem demojize_overlapping_glyph_by_parts:
  "map_of (UNICODE_EMOJI family_codes) [0x1F469, 0x200D, 0x1F467]
     = Some (ustr '':family_woman_girl:'')
   \<and> map_of (UNICODE_EMOJI family_codes) [0x1F467] = Some (ustr '':girl:'')
   \<and> [0x1F469, 0x200D, 0x1F469, 0x200D, 0x1F467]
       = [0x1F469, 0x200D] @ [0x1F469, 0x200D, 0x1F467 :: nat] @ []
   \<and> fst (demojize family_codes None [0x1F469, 0x200D, 0x1F469, 0x200D, 0x1F467] False
            (ustr '':'', ustr '':''))
       = ustr '':couple_ww:'' @ [0x200D] @ ustr '':girl:''"
  by (simp add: family_codes_def model_defs)

text \<open>
  Claim C2, amended: let a glyph \<open>g\<close> of the table stand in the text at an offset at
  which the scan arrives (no earlier match runs across it), and let no longer glyph of the
  table match there.  Then \<open>demojize\<close> replaces \<open>g\<close> as a whole by its own name between
  the delimiters, whether or not shorter glyphs such as single code points of \<open>g\<close> are in
  the table too; what stands before and behind is converted as it would be on its own.
  The alternatives of the pattern are in order of non-increasing length.  For the input
  \<open>g\<close> itself both conditions hold of themselves.
\<close>

theorem demojize_longest_match:
  assumes "regexp_cache_inv T cache"
    and "g \<in> set (dict_values (EMOJI_UNICODE T))"
    and "[] \<notin> set (dict_values (EMOJI_UNICODE T))"
    and "map_of (if ua then UNICODE_EMOJI_ALIAS T else UNICODE_EMOJI T) g = Some name"
    and "scan_arrives (fst (get_emoji_regexp T cache)) (length pre) (pre @ g @ post)"
    and "list_all (\<lambda>a. prefix a (g @ post) \<longrightarrow> length a \<le> length g)
           (dict_values (EMOJI_UNICODE T))"
  shows "fst (demojize T cache (pre @ g @ post) ua (d0, d1)) =
           fst (demojize T cache pre ua (d0, d1))
             @ py_replace [0xFE0F] [] (d0 @ slice_1_m1 name @ d1)
             @ fst (demojize T cache post ua (d0, d1))
         \<and> sorted_wrt (\<lambda>a b. length b \<le> length a) (fst (get_emoji_regexp T cache))"
proof -
  have "demojize_replace T ua (d0, d1) g = d0 @ slice_1_m1 name @ d1"
    using assms(4) by (simp add: demojize_replace_def dict_get_def)
  moreover have "sorted_wrt (\<lambda>a b. length b \<le> length a) (fst (get_emoji_regexp T cache))"
    using get_emoji_regexp_inv(1) [OF assms(1)] pattern_no_empty(1) [OF assms(2,3)]
      sorted_by_len_reverse_sorted [of "dict_values (EMOJI_UNICODE T)"]
    by simp
  ultimately show ?thesis
    using demojize_split [OF assms(1,2,3,5), of ua "(d0, d1)"] assms(6)
    by (simp add: list_all_iff)
qed

theorem demojize_longest_match_witness:
  "fst (demojize family_codes None (ustr ''1 '' @ [0x2764, 0xFE0F] @ []) False
          (ustr '':'', ustr '':''))
     = ustr ''1 :red_heart:''
   \<and> fst (demojize family_codes None
          ([0x1F469, 0x200D, 0x1F469] @ [0x1F469, 0x200D, 0x1F467] @ ustr ''!'') False
          (ustr '':'', ustr '':''))
     = ustr '':couple_ww::family_woman_girl:!''
   \<and> [0x1F469] \<in> set (dict_values (EMOJI_UNICODE family_codes))
   \<and> [0x2764] \<in> set (dict_values (EMOJI_UNICODE family_codes))"
proof -
  have inv: "regexp_cache_inv family_codes None"
    by (simp add: regexp_cache_inv_def)
  have g1: "[0x2764, 0xFE0F] \<in> set (dict_values (EMOJI_UNICODE family_codes))"
    and g2: "[0x1F469, 0x200D, 0x1F467] \<in> set (dict_values (EMOJI_UNICODE family_codes))"
    and ne: "[] \<notin> set (dict_values (EMOJI_UNICODE family_codes))"
    and c1: "[0x1F469] \<in> set (dict_values (EMOJI_UNICODE family_codes))"
    and c2: "[0x2764] \<in> set (dict_values (EMOJI_UNICODE family_codes))"
    by (simp_all add: family_codes_def dict_values_def)
  have name1: "map_of (if False then UNICODE_EMOJI_ALIAS family_codes
                       else UNICODE_EMOJI family_codes) [0x2764, 0xFE0F]
                 = Some (ustr '':red_heart:'')"
    and name2: "map_of (if False then UNICODE_EMOJI_ALIAS family_codes
                       else UNICODE_EMOJI family_codes) [0x1F469, 0x200D, 0x1F467]
                 = Some (ustr '':family_woman_girl:'')"
    by (simp_all add: family_codes_def)
  have arr1: "scan_arrives (fst (get_emoji_regexp family_codes None)) (length (ustr ''1 ''))
                (ustr ''1 '' @ [0x2764, 0xFE0F] @ [])"
    and arr2: "scan_arrives (fst (get_emoji_regexp family_codes None))
                (length [0x1F469, 0x200D, 0x1F469 :: nat])
                ([0x1F469, 0x200D, 0x1F469] @ [0x1F469, 0x200D, 0x1F467] @ ustr ''!'')"
    by (simp_all add: family_codes_def model_defs)
  have long1: "list_all (\<lambda>a. prefix a ([0x2764, 0xFE0F] @ [])
                  \<longrightarrow> length a \<le> length [0x2764, 0xFE0F :: nat])
                (dict_values (EMOJI_UNICODE family_codes))"
    and long2: "list_all (\<lambda>a. prefix a ([0x1F469, 0x200D, 0x1F467] @ ustr ''!'')
                  \<longrightarrow> length a \<le> length [0x1F469, 0x200D, 0x1F467 :: nat])
                (dict_values (EMOJI_UNICODE family_codes))"
    by (simp_all add: family_codes_def dict_values_def ustr_def)
  have pre1: "fst (demojize family_codes None (ustr ''1 '') False (ustr '':'', ustr '':''))
                = ustr ''1 ''"
    and pre2: "fst (demojize family_codes None [0x1F469, 0x200D, 0x1F469] False
                  (ustr '':'', ustr '':''))
                = ustr '':couple_ww:''"
    and post1: "fst (demojize family_codes None [] False (ustr '':'', ustr '':'')) = []"
    and post2: "fst (demojize family_codes None (ustr ''!'') False (ustr '':'', ustr '':''))
                = ustr ''!''"
    by (simp_all add: family_codes_def model_defs)
  have "fst (demojize family_codes None (ustr ''1 '' @ [0x2764, 0xFE0F] @ []) False
          (ustr '':'', ustr '':''))
     = ustr ''1 :red_heart:''"
    using demojize_longest_match [OF inv g1 ne name1 arr1 long1, of "ustr '':''" "ustr '':''"]
    by (simp only: pre1 post1) (simp add: ustr_def py_replace_def slice_1_m1_def)
  moreover have "fst (demojize family_codes None
          ([0x1F469, 0x200D, 0x1F469] @ [0x1F469, 0x200D, 0x1F467] @ ustr ''!'') False
          (ustr '':'', ustr '':''))
     = ustr '':couple_ww::family_woman_girl:!''"
    using demojize_longest_match [OF inv g2 ne name2 arr2 long2, of "ustr '':''" "ustr '':''"]
    by (simp only: pre2 post2) (simp add: ustr_def py_replace_def slice_1_m1_def)
  ultimately show ?thesis
    using c1 c2 by simp
qed



text \<open>
  Claim C7, as stated: with U+1F62F named \<open>:hushed_face:\<close>,
  \<open>demojize("Unicode is tricky \U0001F62F", delimiters=(" __", "__ "))\<close> is
  \<open>"Unicode is tricky __hushed_face__ "\<close>, with one space before the opening \<open>__\<close>.
  The result has two: the space of the text and the space of the opening delimiter.
\<close>

theorem demojize_hushed_face_one_space_fails:
  "map_of (UNICODE_EMOJI sample_codes) [0x1F62F] = Some (ustr '':hushed_face:'')
   \<and> fst (demojize sample_codes None (ustr ''Unicode is tricky '' @ [0x1F62F]) False
            (ustr '' __'', ustr ''__ ''))
       = ustr ''Unicode is tricky  __hushed_face__ ''
   \<and> fst (demojize sample_codes None (ustr ''Unicode is tricky '' @ [0x1F62F]) False
            (ustr '' __'', ustr ''__ ''))
       \<noteq> ustr ''Unicode is tricky __hushed_face__ ''"
  by (simp add: sample_codes_def model_defs)

text \<open>
  Claim C7, amended: for every table that names U+1F62F \<open>:hushed_face:\<close>, has it among
  the glyphs of the pattern, and has no glyph that is empty or starts with a character of
  \<open>"Unicode is tricky "\<close>, the call returns \<open>"Unicode is tricky  __hushed_face__ "\<close>:
  two spaces before the opening \<open>__\<close> and one after the closing \<open>__\<close>.
\<close>

theorem demojize_hushed_face:
  assumes "regexp_cache_inv T cache"
    and "[0x1F62F] \<in> set (dict_values (EMOJI_UNICODE T))"
    and "[] \<notin> set (dict_values (EMOJI_UNICODE T))"
    and "map_of (UNICODE_EMOJI T) [0x1F62F] = Some (ustr '':hushed_face:'')"
    and "list_all (\<lambda>a. hd a \<notin> set (ustr ''Unicode is tricky ''))
           (dict_values (EMOJI_UNICODE T))"
  shows "fst (demojize T cache (ustr ''Unicode is tricky '' @ [0x1F62F]) False
                (ustr '' __'', ustr ''__ ''))
           = ustr ''Unicode is tricky  __hushed_face__ ''"
proof -
  have rep: "demojize_replace T False (ustr '' __'', ustr ''__ '') [0x1F62F]
               = ustr '' __hushed_face__ ''"
    using assms(4) by (simp add: demojize_replace_def dict_get_def slice_1_m1_def ustr_def)
  have "\<forall>a \<in> set (dict_values (EMOJI_UNICODE T)).
          prefix a ([0x1F62F] @ []) \<longrightarrow> length a \<le> length [0x1F62F :: nat]"
    by (auto simp: prefix_def Cons_eq_append_conv)
  then have "fst (demojize T cache (ustr ''Unicode is tricky '' @ [0x1F62F] @ []) False
                (ustr '' __'', ustr ''__ ''))
      = py_replace [0xFE0F] [] (ustr ''Unicode is tricky '' @ ustr '' __hushed_face__ '')"
    using demojize_at_glyph [OF assms(1,2,3), of "ustr ''Unicode is tricky ''" "[]" False
            "(ustr '' __'', ustr ''__ '')"]
      assms(5) demojize_empty [OF assms(1,2,3)]
    by (simp only: list_all_iff rep append_Nil2) 
  then show ?thesis
    by (simp add: ustr_def py_replace_def)
qed

theorem demojize_hushed_face_witness:
  "regexp_cache_inv sample_codes None
   \<and> [0x1F62F] \<in> set (dict_values (EMOJI_UNICODE sample_codes))
   \<and> [] \<notin> set (dict_values (EMOJI_UNICODE sample_codes))
   \<and> map_of (UNICODE_EMOJI sample_codes) [0x1F62F] = Some (ustr '':hushed_face:'')
   \<and> list_all (\<lambda>a. hd a \<notin> set (ustr ''Unicode is tricky ''))
         (dict_values (EMOJI_UNICODE sample_codes))
   \<and> fst (demojize sample_codes None (ustr ''Unicode is tricky '' @ [0x1F62F]) False
            (ustr '' __'', ustr ''__ ''))
       = ustr ''Unicode is tricky  __hushed_face__ ''"
proof -
  have inv: "regexp_cache_inv sample_codes None"
    by (simp add: regexp_cache_inv_def)
  have g: "[0x1F62F] \<in> set (dict_values (EMOJI_UNICODE sample_codes))"
    and ne: "[] \<notin> set (dict_values (EMOJI_UNICODE sample_codes))"
    by (simp_all add: sample_codes_def dict_values_def)
  have name: "map_of (UNICODE_EMOJI sample_codes) [0x1F62F] = Some (ustr '':hushed_face:'')"
    by (simp add: sample_codes_def)
  have pre: "list_all (\<lambda>a. hd a \<notin> set (ustr ''Unicode is tricky ''))
               (dict_values (EMOJI_UNICODE sample_codes))"
    by (simp add: sample_codes_def dict_values_def ustr_def)
  show ?thesis
    using demojize_hushed_face [OF inv g ne name pre] inv g ne name pre by simp
qed

section \<open>emojize: the round trip and unknown shortcodes\<close>

text \<open>
  Claim C1, as stated: for every name whose glyph is in the table,
  \<open>demojize(emojize(":n:"))\<close> is \<open>:n:\<close> when both calls use the same mode, in alias mode
  for every aliased name.  In the sample table \<open>:+1:\<close> and \<open>:thumbsup:\<close> are both aliases
  of U+1F44D, and the inverse alias dictionary, which has one name for each glyph, holds
  \<open>:thumbsup:\<close>: in alias mode \<open>:+1:\<close> comes back as \<open>:thumbsup:\<close>.
\<close>

theorem demojize_emojize_second_alias:
  "token (ustr ''+1'')
   \<and> map_of (EMOJI_ALIAS_UNICODE sample_codes) (ustr '':+1:'') = Some [0x1F44D]
   \<and> [0x1F44D] \<in> set (dict_values (EMOJI_UNICODE sample_codes))
   \<and> dict_contains (UNICODE_EMOJI_ALIAS sample_codes) [0x1F44D]
   \<and> emojize sample_codes (ustr '':+1:'') True (ustr '':'', ustr '':'') = Some [0x1F44D]
   \<and> fst (demojize sample_codes None [0x1F44D] True (ustr '':'', ustr '':''))
       = ustr '':thumbsup:''
   \<and> fst (demojize sample_codes None [0x1F44D] True (ustr '':'', ustr '':''))
       \<noteq> ustr '':+1:''"
  by (simp add: sample_codes_def model_defs token_def)

text \<open>
  Claim C1, amended: let \<open>name\<close> be a name the shortcode pattern can match, let the table
  map \<open>:name:\<close> to the glyph \<open>g\<close> in the chosen mode (canonical or alias), where \<open>g\<close> is
  one of the glyphs the pattern is built from and no glyph of the table is empty.  With the
  default delimiters and the same mode in both calls, \<open>emojize(":name:")\<close> is \<open>g\<close>, and
  \<open>demojize\<close> of \<open>g\<close> is the name that the inverse dictionary of that mode holds for
  \<open>g\<close>, between colons.  So the round trip gives \<open>:name:\<close> back whenever the inverse
  dictionary maps \<open>g\<close> to \<open>:name:\<close>, which it does for one of the names of a glyph only.
\<close>

theorem demojize_emojize_roundtrip:
  assumes "regexp_cache_inv T cache"
    and "token name"
    and "map_of (if ua then EMOJI_ALIAS_UNICODE T else EMOJI_UNICODE T) (shortcode name) = Some g"
    and "g \<in> set (dict_values (EMOJI_UNICODE T))"
    and "[] \<notin> set (dict_values (EMOJI_UNICODE T))"
  shows "emojize T (shortcode name) ua (DEFAULT_DELIMITER, DEFAULT_DELIMITER) = Some g
       \<and> fst (demojize T cache g ua (DEFAULT_DELIMITER, DEFAULT_DELIMITER))
           = py_replace [0xFE0F] []
               (DEFAULT_DELIMITER
                  @ slice_1_m1
                      (dict_get (if ua then UNICODE_EMOJI_ALIAS T else UNICODE_EMOJI T) g g)
                  @ DEFAULT_DELIMITER)
       \<and> (map_of (if ua then UNICODE_EMOJI_ALIAS T else UNICODE_EMOJI T) g
              = Some (shortcode name)
            \<longrightarrow> fst (demojize T cache g ua (DEFAULT_DELIMITER, DEFAULT_DELIMITER))
                  = shortcode name)"
proof -
  let ?dd = "(DEFAULT_DELIMITER, DEFAULT_DELIMITER)"
  let ?inv = "if ua then UNICODE_EMOJI_ALIAS T else UNICODE_EMOJI T"
  have e: "emojize T (shortcode name) ua ?dd = Some g"
    using assms(3) by (simp add: emojize_shortcode [OF assms(2)] dict_get_def)
  have general: "fst (demojize T cache g ua ?dd)
      = py_replace [0xFE0F] []
          (DEFAULT_DELIMITER @ slice_1_m1 (dict_get ?inv g g) @ DEFAULT_DELIMITER)"
    using demojize_glyph_alone [OF assms(1,4,5), of ua ?dd]
    by (simp add: demojize_replace_def Let_def)
  have "0xFE0F \<notin> set (shortcode name)"
    using assms(2) token_char_selector
    by (auto simp: shortcode_def DEFAULT_DELIMITER_def token_def list_all_iff)
  then have strip: "py_replace [0xFE0F] [] (shortcode name) = shortcode name"
    by (auto simp: py_replace_single filter_id_conv)
  have "fst (demojize T cache g ua ?dd) = shortcode name"
    if "map_of ?inv g = Some (shortcode name)"
  proof -
    have "DEFAULT_DELIMITER @ slice_1_m1 (dict_get ?inv g g) @ DEFAULT_DELIMITER
            = shortcode name"
      using that by (simp add: dict_get_def slice_1_m1_def shortcode_def DEFAULT_DELIMITER_def)
    then show ?thesis
      using general strip by simp
  qed
  then show ?thesis
    using e general by blast
qed

theorem demojize_emojize_roundtrip_witness:
  "emojize sample_codes (ustr '':red_heart:'') False (ustr '':'', ustr '':'')
     = Some [0x2764, 0xFE0F]
   \<and> fst (demojize sample_codes None [0x2764, 0xFE0F] False (ustr '':'', ustr '':''))
     = ustr '':red_heart:''
   \<and> emojize sample_codes (ustr '':thumbsup:'') True (ustr '':'', ustr '':'')
     = Some [0x1F44D]
   \<and> fst (demojize sample_codes None [0x1F44D] True (ustr '':'', ustr '':''))
     = ustr '':thumbsup:''"
proof -
  have inv: "regexp_cache_inv sample_codes None"
    by (simp add: regexp_cache_inv_def)
  have ne: "[] \<notin> set (dict_values (EMOJI_UNICODE sample_codes))"
    by (simp add: sample_codes_def dict_values_def)
  have tok1: "token (ustr ''red_heart'')" and tok2: "token (ustr ''thumbsup'')"
    by (simp_all add: token_def token_char_def ustr_def)
  have fwd1: "map_of (if False then EMOJI_ALIAS_UNICODE sample_codes
                      else EMOJI_UNICODE sample_codes) (shortcode (ustr ''red_heart''))
                = Some [0x2764, 0xFE0F]"
    and bwd1: "map_of (if False then UNICODE_EMOJI_ALIAS sample_codes
                       else UNICODE_EMOJI sample_codes) [0x2764, 0xFE0F]
                = Some (shortcode (ustr ''red_heart''))"
    and g1: "[0x2764, 0xFE0F] \<in> set (dict_values (EMOJI_UNICODE sample_codes))"
    by (simp_all add: sample_codes_def dict_values_def shortcode_def DEFAULT_DELIMITER_def
        ustr_def)
  have fwd2: "map_of (if True then EMOJI_ALIAS_UNICODE sample_codes
                      else EMOJI_UNICODE sample_codes) (shortcode (ustr ''thumbsup''))
                = Some [0x1F44D]"
    and bwd2: "map_of (if True then UNICODE_EMOJI_ALIAS sample_codes
                       else UNICODE_EMOJI sample_codes) [0x1F44D]
                = Some (shortcode (ustr ''thumbsup''))"
    and g2: "[0x1F44D] \<in> set (dict_values (EMOJI_UNICODE sample_codes))"
    by (simp_all add: sample_codes_def dict_values_def shortcode_def DEFAULT_DELIMITER_def
        ustr_def)
  note r1 = demojize_emojize_roundtrip [OF inv tok1 fwd1 g1 ne]
  note r2 = demojize_emojize_roundtrip [OF inv tok2 fwd2 g2 ne]
  have "emojize sample_codes (ustr '':red_heart:'') False (ustr '':'', ustr '':'')
          = Some [0x2764, 0xFE0F]"
    using r1 [THEN conjunct1] by (simp add: shortcode_def DEFAULT_DELIMITER_def ustr_def)
  moreover have "fst (demojize sample_codes None [0x2764, 0xFE0F] False (ustr '':'', ustr '':''))
          = ustr '':red_heart:''"
    using r1 [THEN conjunct2, THEN conjunct2, rule_format, OF bwd1]
    by (simp add: shortcode_def DEFAULT_DELIMITER_def ustr_def)
  moreover have "emojize sample_codes (ustr '':thumbsup:'') True (ustr '':'', ustr '':'')
          = Some [0x1F44D]"
    using r2 [THEN conjunct1] by (simp add: shortcode_def DEFAULT_DELIMITER_def ustr_def)
  moreover have "fst (demojize sample_codes None [0x1F44D] True (ustr '':'', ustr '':''))
          = ustr '':thumbsup:''"
    using r2 [THEN conjunct2, THEN conjunct2, rule_format, OF bwd2]
    by (simp add: shortcode_def DEFAULT_DELIMITER_def ustr_def)
  ultimately show ?thesis
    by simp
qed

text \<open>
  Claim C3 says that a shortcode whose key is not in the table comes out of \<open>emojize\<close>
  exactly as it went in, caller-chosen delimiters included.  With the delimiters
  \<open>("__", "__")\<close> and no entry \<open>:foo:\<close>, the input \<open>__foo__\<close> comes out as
  \<open>:foo:\<close>: the fallback of the lookup is the key, in which the delimiters have already
  been replaced by colons, and not the matched text.
\<close>

theorem emojize_unknown_shortcode_custom_delimiters:
  assumes "map_of (EMOJI_UNICODE T) (ustr '':foo:'') = None"
  shows "literal_delimiter (ustr ''__'')
       \<and> emojize T (ustr ''__foo__'') False (ustr ''__'', ustr ''__'') = Some (ustr '':foo:'')
       \<and> emojize T (ustr ''__foo__'') False (ustr ''__'', ustr ''__'')
           \<noteq> Some (ustr ''__foo__'')"
  using assms by (simp add: model_defs)

theorem emojize_unknown_shortcode_custom_delimiters_witness:
  "map_of (EMOJI_UNICODE sample_codes) (ustr '':foo:'') = None
   \<and> emojize sample_codes (ustr ''__foo__'') False (ustr ''__'', ustr ''__'')
       = Some (ustr '':foo:'')"
proof -
  have absent: "map_of (EMOJI_UNICODE sample_codes) (ustr '':foo:'') = None"
    by (simp add: sample_codes_def ustr_def)
  show ?thesis
    using emojize_unknown_shortcode_custom_delimiters [OF absent] absent by simp
qed

end
